theory Spec2Isabelle
  imports Main
begin

section \<open>The cache of cloud-config-server: data model\<close>

text \<open>
  The development follows \<^verbatim>\<open>cloud-config-server/cache/cache.go\<close>. A \<^verbatim>\<open>[]byte\<close> is a
  list of characters (a HOL character is one byte); a Go slice value is an option, where
  \<open>None\<close> is the \<^verbatim>\<open>nil\<close> slice. A Go \<^verbatim>\<open>error\<close> value is an option as well, \<open>None\<close>
  being \<^verbatim>\<open>nil\<close>.
\<close>

type_synonym bytes = string
type_synonym slice = "bytes option"

datatype error = Error string

text \<open>
  What \<^verbatim>\<open>client.Get\<close> hands back when it reports no error: the status code, and what
  \<^verbatim>\<open>ioutil.ReadAll(resp.Body)\<close> will yield (the body, or a read error).
\<close>

record response =
  StatusCode :: int
  Body :: "error + bytes"

text \<open>
  The network at the moment of a call: from the client's timeout and the URL to the result
  of \<^verbatim>\<open>http.Client{Timeout: timeout}.Get(url)\<close>. \<open>Inl\<close> is a non-nil error (connection
  failure, timeout, ...).
\<close>

type_synonym http = "int \<Rightarrow> string \<Rightarrow> error + response"

text \<open>The local file system: the readable files and their contents.\<close>

type_synonym disk = "string \<rightharpoonup> bytes"

text \<open>
  A fault of one \<^verbatim>\<open>ioutil.WriteFile\<close> call, chosen by the environment: \<open>None\<close> when the
  write goes through, otherwise the error and whatever is left of the file.
\<close>

type_synonym wfault = "(error \<times> bytes option) option"

text \<open>The lines written by package \<^verbatim>\<open>log\<close>, one constructor for each format string.\<close>

datatype log_entry =
    Printf_v "error option"
  | Cannot_load_from string error
  | Cannot_load_from_local string error
  | Cannot_write_to_local string error

datatype panic =
    Send_on_closed_channel
  | Panicf log_entry

text \<open>
  How a call ends for its caller: it returns, it panics, or the calling goroutine is
  parked on a channel operation.
\<close>

datatype 'a outcome = Returns 'a | Panics panic | Blocks

subsection \<open>Channels\<close>

text \<open>
  A \<^verbatim>\<open>chan int\<close>: its capacity, the buffered values, the values of the goroutines parked
  in a send, and whether it has been closed.
\<close>

record chan =
  ch_cap :: nat
  ch_buf :: "int list"
  ch_sendq :: "int list"
  ch_closed :: bool

definition make_chan :: "nat \<Rightarrow> chan" where
  "make_chan n = \<lparr>ch_cap = n, ch_buf = [], ch_sendq = [], ch_closed = False\<rparr>"

datatype send_result = Sent chan | Parked chan | Not_ready | Send_panics

text \<open>
  \<^verbatim>\<open>select { case ch <- v: default: }\<close>: a send on a closed channel panics also inside a
  select; otherwise the value is buffered when there is room, and the default case runs
  when there is none.
\<close>

definition try_send :: "int \<Rightarrow> chan \<Rightarrow> send_result" where
  "try_send v ch =
     (if ch_closed ch then Send_panics
      else if length (ch_buf ch) < ch_cap ch then Sent (ch\<lparr>ch_buf := ch_buf ch @ [v]\<rparr>)
      else Not_ready)"

text \<open>\<^verbatim>\<open>ch <- v\<close>: as above, but the sender is parked when there is no room.\<close>

definition send :: "int \<Rightarrow> chan \<Rightarrow> send_result" where
  "send v ch =
     (if ch_closed ch then Send_panics
      else if length (ch_buf ch) < ch_cap ch then Sent (ch\<lparr>ch_buf := ch_buf ch @ [v]\<rparr>)
      else Parked (ch\<lparr>ch_sendq := ch_sendq ch @ [v]\<rparr>))"

text \<open>
  A receive that does not wait (\<^verbatim>\<open>case <-ch:\<close> when it can proceed): from the buffer,
  else from a parked sender, which is released; a closed and drained channel yields the
  zero value. \<open>None\<close>: the receive cannot proceed.
\<close>

definition try_recv :: "chan \<Rightarrow> (int \<times> chan) option" where
  "try_recv ch =
     (case ch_buf ch of
        v # vs \<Rightarrow> Some (v, ch\<lparr>ch_buf := vs\<rparr>)
      | [] \<Rightarrow>
         (case ch_sendq ch of
            v # vs \<Rightarrow> Some (v, ch\<lparr>ch_sendq := vs\<rparr>)
          | [] \<Rightarrow> if ch_closed ch then Some (0, ch) else None))"

text \<open>
  \<^verbatim>\<open>close(ch)\<close>: on a closed channel it panics, which is \<open>None\<close> here; otherwise every
  sender parked on the channel is woken with a panic, and the second component counts them.
\<close>

definition close_chan :: "chan \<Rightarrow> (chan \<times> nat) option" where
  "close_chan ch =
     (if ch_closed ch then None
      else Some (ch\<lparr>ch_closed := True, ch_sendq := []\<rparr>, length (ch_sendq ch)))"

subsection \<open>The cache and the state around it\<close>

record Cache =
  filename :: string
  url :: string
  content :: slice
  update :: chan
  close :: chan

text \<open>
  The places where the goroutine started by \<^verbatim>\<open>New\<close> can stand: the first select (timer or
  update), the fetch, the second select (close or default), the two \<^verbatim>\<open>close\<close> calls, and
  after its \<^verbatim>\<open>return\<close>.
\<close>

datatype pc = Select1 | Refresh | Select2 | CloseUpdate | CloseClose | Exited

text \<open>
  The cache together with its goroutine, the disk and the log. \<open>panicked\<close> counts the
  callers of \<^verbatim>\<open>Close\<close> that were parked on the channel when the goroutine closed it.
\<close>

record state =
  cache :: Cache
  task :: pc
  disk :: disk
  logs :: "log_entry list"
  panicked :: nat

definition loadTimeout :: int where
  "loadTimeout = 15 * 1000000000"

definition updatePeriod :: int where
  "updatePeriod = 20 * 1000000000"

section \<open>The functions of cache.go\<close>

definition ReadFile :: "disk \<Rightarrow> string \<Rightarrow> error + bytes" where
  "ReadFile dk fn = (case dk fn of None \<Rightarrow> Inl (Error ''open: no such file'') | Some b \<Rightarrow> Inr b)"

text \<open>A \<^verbatim>\<open>nil\<close> slice is written as no bytes.\<close>

definition WriteFile :: "wfault \<Rightarrow> disk \<Rightarrow> string \<Rightarrow> slice \<Rightarrow> error option \<times> disk" where
  "WriteFile flt dk fn b =
     (case flt of
        None \<Rightarrow> (None, dk(fn \<mapsto> (case b of None \<Rightarrow> [] | Some bs \<Rightarrow> bs)))
      | Some (e, left) \<Rightarrow> (Some e, dk(fn := left)))"

text \<open>
  \<^verbatim>\<open>httpGet\<close>: the pair \<open>(resp, err)\<close> is what \<^verbatim>\<open>client.Get\<close> returned; the first test
  returns \<^verbatim>\<open>nil, err\<close> with that same \<open>err\<close>, on an error and on a status other than 200.
\<close>

definition httpGet ::
  "http \<Rightarrow> string \<Rightarrow> int \<Rightarrow> log_entry list \<Rightarrow> (slice \<times> error option) \<times> log_entry list" where
  "httpGet net u timeout lg =
     (let (resp, err) = (case net timeout u of
                           Inl e \<Rightarrow> (None, Some e)
                         | Inr r \<Rightarrow> (Some r, None))
      in if err \<noteq> None \<or> StatusCode (the resp) \<noteq> 200
         then ((None, err), lg @ [Printf_v err])
         else (case Body (the resp) of
                 Inl e \<Rightarrow> ((None, Some e), lg @ [Printf_v (Some e)])
               | Inr body \<Rightarrow> ((Some body, None), lg)))"

text \<open>\<^verbatim>\<open>load\<close>: \<^verbatim>\<open>log.Panicf\<close> writes its line and panics with it.\<close>

definition load ::
  "http \<Rightarrow> disk \<Rightarrow> string \<Rightarrow> string \<Rightarrow> log_entry list \<Rightarrow> slice outcome \<times> log_entry list" where
  "load net dk u fn lg =
     (case httpGet net u loadTimeout lg of
        ((b, Some e), lg1) \<Rightarrow>
          (let lg2 = lg1 @ [Cannot_load_from u e]
           in case ReadFile dk fn of
                Inl e' \<Rightarrow> (Panics (Panicf (Cannot_load_from_local fn e')),
                           lg2 @ [Cannot_load_from_local fn e'])
              | Inr b' \<Rightarrow> (Returns (Some b'), lg2))
      | ((b, None), lg1) \<Rightarrow> (Returns b, lg1))"

text \<open>
  \<^verbatim>\<open>New\<close>: the cache with its two fresh channels, and the goroutine standing at its first
  select. A panic of \<^verbatim>\<open>load\<close> goes through \<^verbatim>\<open>New\<close> to the caller.
\<close>

definition New :: "http \<Rightarrow> disk \<Rightarrow> log_entry list \<Rightarrow> string \<Rightarrow> string \<Rightarrow> state outcome" where
  "New net dk lg u fn =
     (case load net dk u fn lg of
        (Returns b, lg') \<Rightarrow>
          Returns \<lparr>cache = \<lparr>filename = fn, url = u, content = b,
                             update = make_chan 1, close = make_chan 0\<rparr>,
                   task = Select1, disk = dk, logs = lg', panicked = 0\<rparr>
      | (Panics p, lg') \<Rightarrow> Panics p
      | (Blocks, lg') \<Rightarrow> Blocks)"

text \<open>\<^verbatim>\<open>Get\<close>: read the content, then the send that does not wait.\<close>

definition Get :: "state \<Rightarrow> slice outcome \<times> state" where
  "Get s =
     (let c = cache s; b = content c
      in case try_send 1 (update c) of
           Sent ch \<Rightarrow> (Returns b, s\<lparr>cache := c\<lparr>update := ch\<rparr>\<rparr>)
         | Parked ch \<Rightarrow> (Returns b, s)
         | Not_ready \<Rightarrow> (Returns b, s)
         | Send_panics \<Rightarrow> (Panics Send_on_closed_channel, s))"

text \<open>\<^verbatim>\<open>Close\<close>: a send that waits until the goroutine receives.\<close>

definition Close :: "state \<Rightarrow> unit outcome \<times> state" where
  "Close s =
     (let c = cache s
      in case send 1 (close c) of
           Sent ch \<Rightarrow> (Returns (), s\<lparr>cache := c\<lparr>close := ch\<rparr>\<rparr>)
         | Parked ch \<Rightarrow> (Blocks, s\<lparr>cache := c\<lparr>close := ch\<rparr>\<rparr>)
         | Not_ready \<Rightarrow> (Blocks, s)
         | Send_panics \<Rightarrow> (Panics Send_on_closed_channel, s))"

subsection \<open>The goroutine of New\<close>

text \<open>
  Lines 60 to 65, one refresh: on \<open>e == nil\<close> the content is assigned and then written to the
  file, a failed write being logged; on an error nothing is done.
\<close>

definition refresh :: "http \<Rightarrow> wfault \<Rightarrow> state \<Rightarrow> state" where
  "refresh net flt s =
     (let c = cache s
      in case httpGet net (url c) loadTimeout (logs s) of
           ((b, None), lg1) \<Rightarrow>
             (let (e, dk) = WriteFile flt (disk s) (filename c) b
              in s\<lparr>cache := c\<lparr>content := b\<rparr>, disk := dk,
                   logs := (case e of
                              None \<Rightarrow> lg1
                            | Some e' \<Rightarrow> lg1 @ [Cannot_write_to_local (filename c) e'])\<rparr>)
         | ((b, Some e), lg1) \<Rightarrow> s\<lparr>logs := lg1\<rparr>)"

text \<open>
  One step of the goroutine. \<open>Tick\<close>: the first select takes the timer. \<open>Signal\<close>: it takes
  a value from \<open>update\<close>. \<open>Fetch\<close>: the refresh, against the network and the write fault of
  that moment. \<open>Check\<close>: the second select. \<open>Closing\<close>: one of the two \<^verbatim>\<open>close\<close> calls.
\<close>

datatype task_event = Tick | Signal | Fetch http wfault | Check | Closing

definition task_step :: "task_event \<Rightarrow> state \<Rightarrow> state option" where
  "task_step ev s =
     (let c = cache s
      in case (task s, ev) of
           (Select1, Tick) \<Rightarrow> Some (s\<lparr>task := Refresh\<rparr>)
         | (Select1, Signal) \<Rightarrow>
             (case try_recv (update c) of
                None \<Rightarrow> None
              | Some (v, ch) \<Rightarrow> Some (s\<lparr>cache := c\<lparr>update := ch\<rparr>, task := Refresh\<rparr>))
         | (Refresh, Fetch net flt) \<Rightarrow> Some ((refresh net flt s)\<lparr>task := Select2\<rparr>)
         | (Select2, Check) \<Rightarrow>
             (case try_recv (close c) of
                None \<Rightarrow> Some (s\<lparr>task := Select1\<rparr>)
              | Some (v, ch) \<Rightarrow> Some (s\<lparr>cache := c\<lparr>close := ch\<rparr>, task := CloseUpdate\<rparr>))
         | (CloseUpdate, Closing) \<Rightarrow>
             (case close_chan (update c) of
                None \<Rightarrow> None
              | Some (ch, n) \<Rightarrow> Some (s\<lparr>cache := c\<lparr>update := ch\<rparr>, task := CloseClose\<rparr>))
         | (CloseClose, Closing) \<Rightarrow>
             (case close_chan (close c) of
                None \<Rightarrow> None
              | Some (ch, n) \<Rightarrow>
                  Some (s\<lparr>cache := c\<lparr>close := ch\<rparr>, task := Exited,
                          panicked := panicked s + n\<rparr>))
         | _ \<Rightarrow> None)"

subsection \<open>Executions\<close>

text \<open>
  An execution interleaves calls of \<^verbatim>\<open>Get\<close> and \<^verbatim>\<open>Close\<close> with steps of the goroutine. A
  step that is not enabled leaves the state as it is.
\<close>

datatype event = CallGet | CallClose | Task task_event

definition step :: "event \<Rightarrow> state \<Rightarrow> state" where
  "step ev s =
     (case ev of
        CallGet \<Rightarrow> snd (Get s)
      | CallClose \<Rightarrow> snd (Close s)
      | Task t \<Rightarrow> (case task_step t s of None \<Rightarrow> s | Some s' \<Rightarrow> s'))"

fun run :: "event list \<Rightarrow> state \<Rightarrow> state" where
  "run [] s = s"
| "run (ev # evs) s = run evs (step ev s)"

subsection \<open>Measures of an execution\<close>

text \<open>The refresh requests waiting in the buffer of \<open>update\<close>.\<close>

definition pending :: "state \<Rightarrow> nat" where
  "pending s = length (ch_buf (update (cache s)))"

text \<open>
  How often, in an execution, the goroutine is woken by \<open>update\<close> (and not by the timer):
  each such wake-up is followed by one fetch.
\<close>

fun signals :: "event list \<Rightarrow> state \<Rightarrow> nat" where
  "signals [] s = 0"
| "signals (ev # evs) s =
     (case ev of
        Task Signal \<Rightarrow> (case task_step Signal s of None \<Rightarrow> 0 | Some s' \<Rightarrow> 1)
      | _ \<Rightarrow> 0) + signals evs (step ev s)"

text \<open>
  What holds of the two channels in every state an execution reaches: the capacities given
  by \<^verbatim>\<open>New\<close>, no more buffered requests than the capacity, and each channel closed exactly
  from the place where the goroutine closes it.
\<close>

definition cache_inv :: "state \<Rightarrow> bool" where
  "cache_inv s =
     (let c = cache s
      in ch_cap (update c) = 1 \<and> ch_cap (close c) = 0 \<and>
         length (ch_buf (update c)) \<le> 1 \<and> ch_buf (close c) = [] \<and>
         ch_sendq (update c) = [] \<and>
         ch_closed (update c) = (task s = CloseClose \<or> task s = Exited) \<and>
         ch_closed (close c) = (task s = Exited))"

subsection \<open>Environments for concrete runs\<close>

text \<open>A server that answers every request with one status and body; a network that is down.\<close>

definition net_status :: "int \<Rightarrow> bytes \<Rightarrow> http" where
  "net_status code body = (\<lambda>timeout u. Inr \<lparr>StatusCode = code, Body = Inr body\<rparr>)"

definition net_down :: "error \<Rightarrow> http" where
  "net_down e = (\<lambda>timeout u. Inl e)"

definition no_files :: disk where
  "no_files = Map.empty"

definition one_file :: "string \<Rightarrow> bytes \<Rightarrow> disk" where
  "one_file fn b = Map.empty(fn \<mapsto> b)"

text \<open>
  The state \<^verbatim>\<open>New\<close> returns on a server that answers 200 with body \<open>b\<close>, and an execution
  in which \<^verbatim>\<open>Close\<close> is called and the goroutine runs to its end.
\<close>

definition ready :: "bytes \<Rightarrow> state" where
  "ready b =
     \<lparr>cache = \<lparr>filename = ''/var/cache/config'', url = ''http://remote/config'',
                content = Some b, update = make_chan 1, close = make_chan 0\<rparr>,
      task = Select1, disk = no_files, logs = [], panicked = 0\<rparr>"

definition shutdown_run :: "event list" where
  "shutdown_run =
     [CallClose, Task Tick, Task (Fetch (net_status 200 ''v1'') None), Task Check,
      Task Closing, Task Closing]"

section \<open>Properties\<close>

subsection \<open>The four ways of httpGet\<close>

lemma httpGet_error:
  "net timeout u = Inl e \<Longrightarrow>
   httpGet net u timeout lg = ((None, Some e), lg @ [Printf_v (Some e)])"
  by (simp add: httpGet_def)

lemma httpGet_status:
  "net timeout u = Inr r \<Longrightarrow> StatusCode r \<noteq> 200 \<Longrightarrow>
   httpGet net u timeout lg = ((None, None), lg @ [Printf_v None])"
  by (simp add: httpGet_def)

lemma httpGet_read_error:
  "net timeout u = Inr r \<Longrightarrow> StatusCode r = 200 \<Longrightarrow> Body r = Inl e \<Longrightarrow>
   httpGet net u timeout lg = ((None, Some e), lg @ [Printf_v (Some e)])"
  by (simp add: httpGet_def)

lemma httpGet_ok:
  "net timeout u = Inr r \<Longrightarrow> StatusCode r = 200 \<Longrightarrow> Body r = Inr b \<Longrightarrow>
   httpGet net u timeout lg = ((Some b, None), lg)"
  by (simp add: httpGet_def)

subsection \<open>The invariant of the channels\<close>

lemma inv_New: "New net dk lg u fn = Returns s \<Longrightarrow> cache_inv s"
  by (auto simp: New_def cache_inv_def make_chan_def split: prod.splits outcome.splits)

lemma inv_Get: "cache_inv s \<Longrightarrow> cache_inv (snd (Get s))"
  by (auto simp: Get_def cache_inv_def try_send_def Let_def)

lemma inv_Close: "cache_inv s \<Longrightarrow> cache_inv (snd (Close s))"
  by (auto simp: Close_def cache_inv_def send_def Let_def)

lemma refresh_frame:
  "update (cache (refresh net flt s)) = update (cache s)"
  "close (cache (refresh net flt s)) = close (cache s)"
  "task (refresh net flt s) = task s"
  "panicked (refresh net flt s) = panicked s"
  "url (cache (refresh net flt s)) = url (cache s)"
  "filename (cache (refresh net flt s)) = filename (cache s)"
  by (auto simp: refresh_def Let_def split: prod.splits option.splits)

lemma inv_task_step: "cache_inv s \<Longrightarrow> task_step t s = Some s' \<Longrightarrow> cache_inv s'"
  by (cases t; cases "task s")
     (auto simp: task_step_def cache_inv_def Let_def try_recv_def close_chan_def refresh_frame
           split: option.splits list.splits if_splits)

lemma inv_step: "cache_inv s \<Longrightarrow> cache_inv (step ev s)"
  by (cases ev) (auto simp: step_def inv_Get inv_Close inv_task_step split: option.splits)

lemma inv_run: "cache_inv s \<Longrightarrow> cache_inv (run evs s)"
  by (induction evs arbitrary: s) (auto simp: inv_step)

lemma run_append: "run (xs @ ys) s = run ys (run xs s)"
  by (induction xs arbitrary: s) auto

lemma signals_append: "signals (xs @ ys) s = signals xs s + signals ys (run xs s)"
  by (induction xs arbitrary: s) auto

lemma pending_le: "cache_inv s \<Longrightarrow> pending s \<le> 1"
  by (simp add: cache_inv_def pending_def Let_def)

text \<open>The goroutine closes each channel once: its two \<^verbatim>\<open>close\<close> calls never panic.\<close>

lemma closing_never_panics:
  "cache_inv s \<Longrightarrow> task s = CloseUpdate \<or> task s = CloseClose \<Longrightarrow>
   task_step Closing s \<noteq> None"
  by (auto simp: task_step_def close_chan_def cache_inv_def Let_def)

text \<open>The URL and the file name never change.\<close>

lemma step_frame:
  "url (cache (step ev s)) = url (cache s)"
  "filename (cache (step ev s)) = filename (cache s)"
proof -
  have "url (cache (step ev s)) = url (cache s) \<and> filename (cache (step ev s)) = filename (cache s)"
  proof (cases ev)
    case CallGet
    then show ?thesis by (simp add: step_def Get_def Let_def split: send_result.splits)
  next
    case CallClose
    then show ?thesis by (simp add: step_def Close_def Let_def split: send_result.splits)
  next
    case (Task t)
    then show ?thesis
      by (cases t; cases "task s")
         (auto simp: step_def task_step_def Let_def refresh_frame
               split: option.splits prod.splits)
  qed
  then show "url (cache (step ev s)) = url (cache s)"
    and "filename (cache (step ev s)) = filename (cache s)" by simp_all
qed

lemma run_frame:
  "url (cache (run evs s)) = url (cache s)"
  "filename (cache (run evs s)) = filename (cache s)"
  by (induction evs arbitrary: s) (simp_all add: step_frame)

lemma New_fields:
  "New net dk lg u fn = Returns s \<Longrightarrow> url (cache s) = u \<and> filename (cache s) = fn"
  by (auto simp: New_def split: prod.splits outcome.splits)

subsection \<open>Requests and wake-ups\<close>

lemma Get_full: "cache_inv s \<Longrightarrow> pending s = 1 \<Longrightarrow> snd (Get s) = s"
  by (auto simp: Get_def cache_inv_def pending_def try_send_def Let_def)

lemma Get_not_Blocks: "fst (Get s) \<noteq> Blocks"
  by (auto simp: Get_def Let_def split: send_result.splits)

lemma Get_pending: "cache_inv s \<Longrightarrow> pending (snd (Get s)) \<le> 1"
  using inv_Get [of s] by (simp add: cache_inv_def pending_def Let_def)

lemma run_Gets_full: "cache_inv s \<Longrightarrow> pending s = 1 \<Longrightarrow> run (replicate n CallGet) s = s"
  by (induction n) (auto simp: step_def Get_full)

lemma signals_Gets: "signals (replicate n CallGet) s = 0"
  by (induction n arbitrary: s) auto

lemma task_step_pending:
  "cache_inv s \<Longrightarrow> task_step t s = Some s' \<Longrightarrow>
   pending s' = (case t of Signal \<Rightarrow> pending s - 1 | _ \<Rightarrow> pending s) \<and>
   (t = Signal \<longrightarrow> 0 < pending s)"
  by (cases t; cases "task s")
     (auto simp: task_step_def cache_inv_def pending_def Let_def try_recv_def close_chan_def
                 refresh_frame
           split: option.splits list.splits if_splits)

lemma Close_pending: "pending (snd (Close s)) = pending s"
  by (auto simp: Close_def pending_def send_def Let_def)

lemma signals_le_pending:
  "cache_inv s \<Longrightarrow> CallGet \<notin> set evs \<Longrightarrow> signals evs s \<le> pending s"
proof (induction evs arbitrary: s)
  case Nil
  then show ?case by simp
next
  case (Cons ev evs)
  have inv': "cache_inv (step ev s)" using Cons.prems(1) by (rule inv_step)
  have rest: "signals evs (step ev s) \<le> pending (step ev s)"
    using Cons.IH [OF inv'] Cons.prems(2) by simp
  show ?case
  proof (cases ev)
    case CallGet
    with Cons.prems(2) show ?thesis by simp
  next
    case CallClose
    with rest show ?thesis by (simp add: step_def Close_pending)
  next
    case (Task t)
    show ?thesis
    proof (cases "task_step t s")
      case None
      with Task rest show ?thesis by (auto simp: step_def split: task_event.splits)
    next
      case (Some s')
      from task_step_pending [OF Cons.prems(1) Some] Task Some rest
      show ?thesis by (auto simp: step_def split: task_event.splits)
    qed
  qed
qed

lemma signals_after:
  "cache_inv s \<Longrightarrow> CallGet \<notin> set t \<Longrightarrow> signals (b @ t) s \<le> signals b s + 1"
proof -
  assume inv: "cache_inv s" and t: "CallGet \<notin> set t"
  have "signals t (run b s) \<le> pending (run b s)"
    using inv t by (simp add: signals_le_pending inv_run)
  also have "\<dots> \<le> 1" using pending_le [OF inv_run [OF inv]] .
  finally show ?thesis by (simp add: signals_append)
qed

subsection \<open>Close\<close>

lemma Close_closed:
  "ch_closed (close (cache s)) \<Longrightarrow> Close s = (Panics Send_on_closed_channel, s)"
  by (simp add: Close_def send_def)

lemma Close_parks:
  "cache_inv s \<Longrightarrow> task s \<noteq> Exited \<Longrightarrow>
   Close s = (Blocks, s\<lparr>cache := (cache s)\<lparr>close := (close (cache s))
                \<lparr>ch_sendq := ch_sendq (close (cache s)) @ [1]\<rparr>\<rparr>\<rparr>)"
  by (simp add: Close_def send_def cache_inv_def Let_def)

subsection \<open>What one refresh does\<close>

lemma refresh_other_status:
  "net loadTimeout (url (cache s)) = Inr r \<Longrightarrow> StatusCode r \<noteq> 200 \<Longrightarrow>
   refresh net None s =
     s\<lparr>cache := (cache s)\<lparr>content := None\<rparr>,
       disk := (disk s)(filename (cache s) \<mapsto> []),
       logs := logs s @ [Printf_v None]\<rparr>"
  by (simp add: refresh_def httpGet_status WriteFile_def Let_def)

lemma refresh_other_status_content:
  "net loadTimeout (url (cache s)) = Inr r \<Longrightarrow> StatusCode r \<noteq> 200 \<Longrightarrow>
   content (cache (refresh net flt s)) = None"
  by (simp add: refresh_def httpGet_status Let_def split: prod.splits)

lemma refresh_ok:
  "net loadTimeout (url (cache s)) = Inr r \<Longrightarrow> StatusCode r = 200 \<Longrightarrow> Body r = Inr b \<Longrightarrow>
   refresh net flt s =
     s\<lparr>cache := (cache s)\<lparr>content := Some b\<rparr>,
       disk := (case flt of
                  None \<Rightarrow> (disk s)(filename (cache s) \<mapsto> b)
                | Some (e, left) \<Rightarrow> (disk s)(filename (cache s) := left)),
       logs := (case flt of
                  None \<Rightarrow> logs s
                | Some (e, left) \<Rightarrow> logs s @ [Cannot_write_to_local (filename (cache s)) e])\<rparr>"
  by (simp add: refresh_def httpGet_ok WriteFile_def Let_def split: option.splits prod.splits)

subsection \<open>Construction\<close>

lemma New_other_status:
  "net loadTimeout u = Inr r \<Longrightarrow> StatusCode r \<noteq> 200 \<Longrightarrow>
   New net dk lg u fn =
     Returns \<lparr>cache = \<lparr>filename = fn, url = u, content = None,
                        update = make_chan 1, close = make_chan 0\<rparr>,
              task = Select1, disk = dk, logs = lg @ [Printf_v None], panicked = 0\<rparr>"
  by (simp add: New_def load_def httpGet_status)

subsection \<open>The concrete runs\<close>

lemma New_ready:
  "New (net_status 200 b) no_files [] ''http://remote/config'' ''/var/cache/config''
     = Returns (ready b)"
  by (simp add: New_def load_def httpGet_def net_status_def ready_def)

lemma shutdown_run_ready:
  "run shutdown_run (ready b) =
     \<lparr>cache = \<lparr>filename = ''/var/cache/config'', url = ''http://remote/config'',
                content = Some ''v1'',
                update = \<lparr>ch_cap = 1, ch_buf = [], ch_sendq = [], ch_closed = True\<rparr>,
                close = \<lparr>ch_cap = 0, ch_buf = [], ch_sendq = [], ch_closed = True\<rparr>\<rparr>,
      task = Exited, disk = no_files(''/var/cache/config'' \<mapsto> ''v1''), logs = [],
      panicked = 0\<rparr>"
  by (simp add: shutdown_run_def ready_def step_def Close_def send_def make_chan_def
        task_step_def try_recv_def refresh_def httpGet_def net_status_def WriteFile_def
        close_chan_def loadTimeout_def)

lemma accepted_run_ready:
  "run (take 4 shutdown_run) (ready b) =
     \<lparr>cache = \<lparr>filename = ''/var/cache/config'', url = ''http://remote/config'',
                content = Some ''v1'',
                update = \<lparr>ch_cap = 1, ch_buf = [], ch_sendq = [], ch_closed = False\<rparr>,
                close = \<lparr>ch_cap = 0, ch_buf = [], ch_sendq = [], ch_closed = False\<rparr>\<rparr>,
      task = CloseUpdate, disk = no_files(''/var/cache/config'' \<mapsto> ''v1''), logs = [],
      panicked = 0\<rparr>"
  by (simp add: shutdown_run_def ready_def step_def Close_def send_def make_chan_def
        task_step_def try_recv_def refresh_def httpGet_def net_status_def WriteFile_def
        close_chan_def loadTimeout_def)

section \<open>The claims of the specification\<close>

text \<open>
  C1. The claim: \<^verbatim>\<open>httpGet\<close> returns the body with no error exactly when the request had no
  transport error and the status is 200, and reports every other outcome as a failure.
  The code does not: on a response whose status is not 200 the error it returns is the
  \<^verbatim>\<open>nil\<close> error of \<^verbatim>\<open>client.Get\<close>, together with a \<^verbatim>\<open>nil\<close> body, so the caller's test
  \<open>e == nil\<close> takes the response for a success.
\<close>

theorem httpGet_other_status_returns_no_error:
  assumes "net timeout u = Inr r" and "StatusCode r \<noteq> 200"
  shows "httpGet net u timeout lg = ((None, None), lg @ [Printf_v None])"
  using assms by (simp add: httpGet_def)

theorem httpGet_other_status_returns_no_error_witness:
  "httpGet (net_status 404 ''not found'') ''http://remote/config'' loadTimeout []
     = ((None, None), [Printf_v None])"
  using httpGet_other_status_returns_no_error
    [of "net_status 404 ''not found''" loadTimeout "''http://remote/config''"
        "\<lparr>StatusCode = 404, Body = Inr ''not found''\<rparr>" "[]"]
  by (simp add: net_status_def)

text \<open>
  C2. The claim: once \<^verbatim>\<open>New\<close> has succeeded, \<^verbatim>\<open>Get\<close> never returns an empty or uninitialised
  snapshot, whatever the server answers later. The code does not keep this: a refresh that
  meets a status other than 200 gets \<^verbatim>\<open>nil, nil\<close> from \<^verbatim>\<open>httpGet\<close> and assigns the
  \<^verbatim>\<open>nil\<close> slice to the content, so the next \<^verbatim>\<open>Get\<close> returns \<^verbatim>\<open>nil\<close>.
\<close>

theorem Get_after_refresh_other_status:
  assumes "New net0 dk lg u fn = Returns s0" and "task (run evs s0) = Refresh"
    and "net loadTimeout u = Inr r" and "StatusCode r \<noteq> 200"
  shows "fst (Get (run (evs @ [Task (Fetch net flt)]) s0)) = Returns None"
proof -
  let ?s = "run evs s0"
  have inv: "cache_inv ?s" using assms(1) by (simp add: inv_New inv_run)
  have u: "url (cache ?s) = u" using assms(1) by (simp add: run_frame New_fields)
  have open_upd: "\<not> ch_closed (update (cache ?s))"
    using inv assms(2) by (simp add: cache_inv_def Let_def)
  have c: "content (cache (refresh net flt ?s)) = None"
    using refresh_other_status_content [of net ?s r flt] assms(3,4) u by simp
  show ?thesis
    using assms(2) open_upd c
    by (simp add: run_append step_def task_step_def Get_def try_send_def Let_def refresh_frame)
qed

theorem Get_after_refresh_other_status_witness:
  "fst (Get (run [Task Tick] (ready ''v1''))) = Returns (Some ''v1'') \<and>
   fst (Get (run ([Task Tick] @ [Task (Fetch (net_status 503 ''busy'') None)]) (ready ''v1'')))
     = Returns None"
proof -
  have t: "task (run [Task Tick] (ready ''v1'')) = Refresh"
    by (simp add: step_def task_step_def ready_def)
  have n: "net_status 503 ''busy'' loadTimeout ''http://remote/config''
             = Inr \<lparr>StatusCode = 503, Body = Inr ''busy''\<rparr>"
    by (simp add: net_status_def)
  have "fst (Get (run [Task Tick] (ready ''v1''))) = Returns (Some ''v1'')"
    by (simp add: step_def task_step_def ready_def Get_def try_send_def make_chan_def)
  with Get_after_refresh_other_status
         [where ?net0.0 = "net_status 200 ''v1''" and dk = no_files and lg = "[]"
            and u = "''http://remote/config''" and fn = "''/var/cache/config''"
            and ?s0.0 = "ready ''v1''" and evs = "[Task Tick]"
            and net = "net_status 503 ''busy''"
            and r = "\<lparr>StatusCode = 503, Body = Inr ''busy''\<rparr>" and flt = None]
       New_ready [of "''v1''"] t n
  show ?thesis by simp
qed

text \<open>
  C3. The claim: when the remote fetch and the read of the fallback file both fail, the
  constructor returns an explicit failure result instead of crashing. The code has no
  such result: \<^verbatim>\<open>New\<close> returns only a cache, and \<^verbatim>\<open>load\<close> ends in \<^verbatim>\<open>log.Panicf\<close>. What
  holds: when \<^verbatim>\<open>httpGet\<close> reports an error (from \<^verbatim>\<open>client.Get\<close>, or from reading the body
  of a 200 response) and the file cannot be read, \<^verbatim>\<open>New\<close> panics with the message of
  \<^verbatim>\<open>log.Panicf\<close>, after logging both failures.
\<close>

theorem New_panics_when_both_fail:
  assumes "net loadTimeout u = Inl e \<or>
           (net loadTimeout u = Inr r \<and> StatusCode r = 200 \<and> Body r = Inl e)"
    and "ReadFile dk fn = Inl e'"
  shows "New net dk lg u fn = Panics (Panicf (Cannot_load_from_local fn e')) \<and>
         load net dk u fn lg =
           (Panics (Panicf (Cannot_load_from_local fn e')),
            lg @ [Printf_v (Some e), Cannot_load_from u e, Cannot_load_from_local fn e'])"
proof -
  have "httpGet net u loadTimeout lg = ((None, Some e), lg @ [Printf_v (Some e)])"
    using assms(1) by (auto simp: httpGet_error httpGet_read_error)
  then show ?thesis using assms(2) by (simp add: New_def load_def)
qed

theorem New_panics_when_both_fail_witness:
  "New (net_down (Error ''connection refused'')) (one_file ''/other'' ''x'') []
       ''http://remote/config'' ''/var/cache/config''
     = Panics (Panicf (Cannot_load_from_local ''/var/cache/config'' (Error ''open: no such file'')))"
proof -
  have a: "net_down (Error ''connection refused'') loadTimeout ''http://remote/config''
             = Inl (Error ''connection refused'')"
    by (simp add: net_down_def)
  have b: "ReadFile (one_file ''/other'' ''x'') ''/var/cache/config''
             = Inl (Error ''open: no such file'')"
    by (simp add: ReadFile_def one_file_def)
  from New_panics_when_both_fail
         [where net = "net_down (Error ''connection refused'')"
            and u = "''http://remote/config''" and e = "Error ''connection refused''"
            and dk = "one_file ''/other'' ''x''" and fn = "''/var/cache/config''"
            and e' = "Error ''open: no such file''" and lg = "[]"]
       a b
  show ?thesis by simp
qed

theorem New_panics_counterexample:
  "New (net_down (Error ''dial tcp: i/o timeout'')) no_files []
       ''http://remote/config'' ''/var/cache/config''
     = Panics (Panicf (Cannot_load_from_local ''/var/cache/config'' (Error ''open: no such file'')))"
  by (simp add: New_def load_def httpGet_def net_down_def no_files_def ReadFile_def)

text \<open>
  C4. The claim: a second \<^verbatim>\<open>Close\<close>, after the goroutine has accepted the first, neither
  blocks for ever nor fails. The code closes the channel \<open>close\<close> after the first receive,
  so the second call does not block for ever, but it panics: at once with
  \<^verbatim>\<open>send on closed channel\<close> when the goroutine has exited, and, when the goroutine is still
  between the receive and its \<^verbatim>\<open>close\<close> calls, after being parked until the channel is
  closed.
\<close>

theorem second_Close_panics:
  assumes "New net dk lg u fn = Returns s0"
  shows "(task (run evs s0) = Exited \<longrightarrow>
            Close (run evs s0) = (Panics Send_on_closed_channel, run evs s0)) \<and>
         (task (run evs s0) = CloseClose \<longrightarrow>
            fst (Close (run evs s0)) = Blocks \<and>
            task (run [Task Closing] (snd (Close (run evs s0)))) = Exited \<and>
            panicked (run [Task Closing] (snd (Close (run evs s0))))
              = panicked (run evs s0) + length (ch_sendq (close (cache (run evs s0)))) + 1) \<and>
         (task (run evs s0) = CloseUpdate \<longrightarrow>
            fst (Close (run evs s0)) = Blocks \<and>
            task (run [Task Closing, Task Closing] (snd (Close (run evs s0)))) = Exited \<and>
            panicked (run [Task Closing, Task Closing] (snd (Close (run evs s0))))
              = panicked (run evs s0) + length (ch_sendq (close (cache (run evs s0)))) + 1)"
proof -
  let ?s = "run evs s0"
  have inv: "cache_inv ?s" using assms by (simp add: inv_New inv_run)
  have a: "task ?s = Exited \<longrightarrow> Close ?s = (Panics Send_on_closed_channel, ?s)"
    using inv by (simp add: Close_closed cache_inv_def Let_def)
  have b: "task ?s = CloseClose \<longrightarrow>
            fst (Close ?s) = Blocks \<and>
            task (run [Task Closing] (snd (Close ?s))) = Exited \<and>
            panicked (run [Task Closing] (snd (Close ?s)))
              = panicked ?s + length (ch_sendq (close (cache ?s))) + 1"
  proof
    assume t: "task ?s = CloseClose"
    then have "\<not> ch_closed (close (cache ?s))"
      using inv by (simp add: cache_inv_def Let_def)
    with t show "fst (Close ?s) = Blocks \<and>
            task (run [Task Closing] (snd (Close ?s))) = Exited \<and>
            panicked (run [Task Closing] (snd (Close ?s)))
              = panicked ?s + length (ch_sendq (close (cache ?s))) + 1"
      using Close_parks [OF inv]
      by (simp add: step_def task_step_def close_chan_def)
  qed
  have c: "task ?s = CloseUpdate \<longrightarrow>
            fst (Close ?s) = Blocks \<and>
            task (run [Task Closing, Task Closing] (snd (Close ?s))) = Exited \<and>
            panicked (run [Task Closing, Task Closing] (snd (Close ?s)))
              = panicked ?s + length (ch_sendq (close (cache ?s))) + 1"
  proof
    assume t: "task ?s = CloseUpdate"
    then have "\<not> ch_closed (close (cache ?s))" "\<not> ch_closed (update (cache ?s))"
      using inv by (simp_all add: cache_inv_def Let_def)
    with t show "fst (Close ?s) = Blocks \<and>
            task (run [Task Closing, Task Closing] (snd (Close ?s))) = Exited \<and>
            panicked (run [Task Closing, Task Closing] (snd (Close ?s)))
              = panicked ?s + length (ch_sendq (close (cache ?s))) + 1"
      using Close_parks [OF inv]
      by (simp add: step_def task_step_def close_chan_def)
  qed
  from a b c show ?thesis by blast
qed

theorem second_Close_panics_witness:
  "task (run shutdown_run (ready ''v1'')) = Exited \<and>
   Close (run shutdown_run (ready ''v1''))
     = (Panics Send_on_closed_channel, run shutdown_run (ready ''v1'')) \<and>
   task (run (take 4 shutdown_run) (ready ''v1'')) = CloseUpdate \<and>
   fst (Close (run (take 4 shutdown_run) (ready ''v1''))) = Blocks \<and>
   panicked (run [Task Closing, Task Closing]
              (snd (Close (run (take 4 shutdown_run) (ready ''v1''))))) = 1"
proof -
  have t: "task (run shutdown_run (ready ''v1'')) = Exited"
    by (simp add: shutdown_run_ready)
  have t4: "task (run (take 4 shutdown_run) (ready ''v1'')) = CloseUpdate"
    and p4: "panicked (run (take 4 shutdown_run) (ready ''v1'')) = 0"
    and q4: "ch_sendq (close (cache (run (take 4 shutdown_run) (ready ''v1'')))) = []"
    by (simp_all add: accepted_run_ready)
  from second_Close_panics
         [where net = "net_status 200 ''v1''" and dk = no_files and lg = "[]"
            and u = "''http://remote/config''" and fn = "''/var/cache/config''"
            and ?s0.0 = "ready ''v1''" and evs = shutdown_run]
       second_Close_panics
         [where net = "net_status 200 ''v1''" and dk = no_files and lg = "[]"
            and u = "''http://remote/config''" and fn = "''/var/cache/config''"
            and ?s0.0 = "ready ''v1''" and evs = "take 4 shutdown_run"]
       New_ready [of "''v1''"] t t4 p4 q4
  show ?thesis by simp
qed

theorem second_Close_counterexample:
  "task (run shutdown_run (ready ''v1'')) = Exited \<and>
   fst (Close (run shutdown_run (ready ''v1''))) = Panics Send_on_closed_channel"
  by (simp add: shutdown_run_ready Close_def send_def)

text \<open>
  C5. The claim: a refresh whose fetch fails (transport error, timeout or a status other
  than 200) leaves the snapshot as it was. The code does so for an error of \<^verbatim>\<open>httpGet\<close>,
  but a status other than 200 is not an error for it: the refresh assigns the \<^verbatim>\<open>nil\<close>
  slice to the content and writes an empty fallback file.
\<close>

theorem refresh_other_status_replaces_snapshot:
  assumes "net loadTimeout (url (cache s)) = Inr r" and "StatusCode r \<noteq> 200"
  shows "content (cache (refresh net None s)) = None \<and>
         disk (refresh net None s) = (disk s)(filename (cache s) \<mapsto> [])"
  using assms by (simp add: refresh_other_status)

theorem refresh_other_status_replaces_snapshot_witness:
  "content (cache (ready ''v2'')) = Some ''v2'' \<and>
   content (cache (refresh (net_status 500 ''internal error'') None (ready ''v2''))) = None \<and>
   disk (refresh (net_status 500 ''internal error'') None (ready ''v2'')) ''/var/cache/config''
     = Some []"
proof -
  have n: "net_status 500 ''internal error'' loadTimeout (url (cache (ready ''v2'')))
             = Inr \<lparr>StatusCode = 500, Body = Inr ''internal error''\<rparr>"
    by (simp add: net_status_def)
  from refresh_other_status_replaces_snapshot
         [where net = "net_status 500 ''internal error''" and s = "ready ''v2''"
            and r = "\<lparr>StatusCode = 500, Body = Inr ''internal error''\<rparr>"] n
  show ?thesis by (simp add: ready_def)
qed

text \<open>
  C6. The claim: \<^verbatim>\<open>New\<close> tries the remote fetch first and, exactly when it fails (network
  error, status other than 200, or timeout), reads the fallback file, whose bytes become
  the snapshot. On a status other than 200 the code does not read the file: \<^verbatim>\<open>load\<close> sees
  no error and returns the \<^verbatim>\<open>nil\<close> slice of \<^verbatim>\<open>httpGet\<close>, even when the file is there.
\<close>

theorem New_other_status_skips_fallback:
  assumes "net loadTimeout u = Inr r" and "StatusCode r \<noteq> 200" and "dk fn = Some b"
  shows "New net dk lg u fn =
           Returns \<lparr>cache = \<lparr>filename = fn, url = u, content = None,
                              update = make_chan 1, close = make_chan 0\<rparr>,
                    task = Select1, disk = dk, logs = lg @ [Printf_v None], panicked = 0\<rparr>"
  using assms(1,2) by (rule New_other_status)

theorem New_other_status_skips_fallback_witness:
  "(case New (net_status 500 ''internal error'') (one_file ''/var/cache/config'' ''local'') []
            ''http://remote/config'' ''/var/cache/config'' of
      Returns s \<Rightarrow> fst (Get s) = Returns None
    | Panics p \<Rightarrow> False
    | Blocks \<Rightarrow> False)"
proof -
  have n: "net_status 500 ''internal error'' loadTimeout ''http://remote/config''
             = Inr \<lparr>StatusCode = 500, Body = Inr ''internal error''\<rparr>"
    by (simp add: net_status_def)
  have d: "one_file ''/var/cache/config'' ''local'' ''/var/cache/config'' = Some ''local''"
    by (simp add: one_file_def)
  from New_other_status_skips_fallback
         [where net = "net_status 500 ''internal error''" and u = "''http://remote/config''"
            and r = "\<lparr>StatusCode = 500, Body = Inr ''internal error''\<rparr>"
            and dk = "one_file ''/var/cache/config'' ''local''"
            and fn = "''/var/cache/config''" and b = "''local''" and lg = "[]"] n d
  show ?thesis by (simp add: Get_def try_send_def make_chan_def)
qed

text \<open>
  C7. \<^verbatim>\<open>Get\<close> never blocks, and never queues a second request: in every state of every
  execution at most one request is waiting, before and after a \<^verbatim>\<open>Get\<close>. While one request
  is waiting, any number of calls of \<^verbatim>\<open>Get\<close> changes nothing. Whatever has happened in an
  execution \<open>b\<close> (any number of calls among it), the goroutine is woken by a request at most
  once more as long as \<^verbatim>\<open>Get\<close> is not called again. So a burst of calls that starts with
  a request waiting, and during which the goroutine runs (at most taking that request),
  leads to at most two wake-ups by request: the waiting one and one more.
\<close>

theorem Get_coalesces:
  assumes "New net dk lg u fn = Returns s0"
  shows "fst (Get (run evs s0)) \<noteq> Blocks \<and>
         pending (run evs s0) \<le> 1 \<and>
         pending (snd (Get (run evs s0))) \<le> 1 \<and>
         (pending (run evs s0) = 1 \<longrightarrow>
            run (replicate n CallGet) (run evs s0) = run evs s0) \<and>
         (CallGet \<notin> set t \<longrightarrow> signals (b @ t) (run evs s0) \<le> signals b (run evs s0) + 1) \<and>
         (pending (run evs s0) = 1 \<and> CallGet \<notin> set t1 \<and> CallGet \<notin> set t2 \<longrightarrow>
            signals (replicate n CallGet @ t1 @ replicate m CallGet @ t2) (run evs s0) \<le> 2)"
proof -
  let ?s = "run evs s0"
  have inv: "cache_inv ?s" using assms by (simp add: inv_New inv_run)
  have c1: "fst (Get ?s) \<noteq> Blocks" by (rule Get_not_Blocks)
  have c2: "pending ?s \<le> 1" using inv by (rule pending_le)
  have c3: "pending (snd (Get ?s)) \<le> 1" using inv by (rule Get_pending)
  have c4: "pending ?s = 1 \<longrightarrow> run (replicate n CallGet) ?s = ?s"
    using inv by (simp add: run_Gets_full)
  have c5: "CallGet \<notin> set t \<longrightarrow> signals (b @ t) ?s \<le> signals b ?s + 1"
    using signals_after [OF inv] by blast
  have c6: "pending ?s = 1 \<and> CallGet \<notin> set t1 \<and> CallGet \<notin> set t2 \<longrightarrow>
            signals (replicate n CallGet @ t1 @ replicate m CallGet @ t2) ?s \<le> 2"
  proof
    assume h: "pending ?s = 1 \<and> CallGet \<notin> set t1 \<and> CallGet \<notin> set t2"
    have "signals ((replicate n CallGet @ t1 @ replicate m CallGet) @ t2) ?s
            \<le> signals (replicate n CallGet @ t1 @ replicate m CallGet) ?s + 1"
      using signals_after [OF inv, of t2 "replicate n CallGet @ t1 @ replicate m CallGet"] h
      by blast
    moreover have "signals (replicate n CallGet @ t1 @ replicate m CallGet) ?s
                     = signals t1 ?s"
      using inv h by (simp add: signals_append signals_Gets run_Gets_full)
    moreover have "signals t1 ?s \<le> 1"
      using signals_le_pending [of ?s t1] inv h by simp
    ultimately have "signals ((replicate n CallGet @ t1 @ replicate m CallGet) @ t2) ?s \<le> 2"
      by linarith
    then show "signals (replicate n CallGet @ t1 @ replicate m CallGet @ t2) ?s \<le> 2"
      by simp
  qed
  from c1 c2 c3 c4 c5 c6 show ?thesis by blast
qed

theorem Get_coalesces_witness:
  "pending (run [CallGet] (ready ''v1'')) = 1 \<and>
   fst (Get (run [CallGet] (ready ''v1''))) \<noteq> Blocks \<and>
   run (replicate 100 CallGet) (run [CallGet] (ready ''v1'')) = run [CallGet] (ready ''v1'') \<and>
   signals (replicate 100 CallGet
              @ [Task Signal, Task (Fetch (net_status 200 ''v2'') None), Task Check]
              @ replicate 100 CallGet
              @ [Task Signal, Task (Fetch (net_status 200 ''v2'') None), Task Check,
                 Task Signal])
           (run [CallGet] (ready ''v1'')) \<le> 2"
proof -
  have p: "pending (run [CallGet] (ready ''v1'')) = 1"
    by (simp add: step_def Get_def try_send_def ready_def make_chan_def pending_def)
  have t1: "CallGet \<notin> set [Task Signal, Task (Fetch (net_status 200 ''v2'') None), Task Check]"
    and t2: "CallGet \<notin> set [Task Signal, Task (Fetch (net_status 200 ''v2'') None), Task Check,
                              Task Signal]"
    by simp_all
  from Get_coalesces
         [where net = "net_status 200 ''v1''" and dk = no_files and lg = "[]"
            and u = "''http://remote/config''" and fn = "''/var/cache/config''"
            and ?s0.0 = "ready ''v1''" and evs = "[CallGet]" and n = 100 and m = 100
            and ?t1.0 = "[Task Signal, Task (Fetch (net_status 200 ''v2'') None), Task Check]"
            and ?t2.0 = "[Task Signal, Task (Fetch (net_status 200 ''v2'') None), Task Check,
                          Task Signal]"
            and t = "[]" and b = "[]"]
       New_ready [of "''v1''"] p t1 t2
  show ?thesis by simp
qed

text \<open>
  C8. A refresh whose fetch succeeds (status 200, body read) makes the fetched bytes the
  content, which \<^verbatim>\<open>Get\<close> returns from then on, and writes them to the fallback file. When
  the write fails, the failure is logged and nothing else changes: the content is the new
  one all the same, and the goroutine goes on to its second select and from there, unless
  a \<^verbatim>\<open>Close\<close> is waiting, back to the first.
\<close>

theorem refresh_success:
  assumes "New net0 dk0 lg0 u fn = Returns s0" and "task (run evs s0) = Refresh"
    and "net loadTimeout u = Inr r" and "StatusCode r = 200" and "Body r = Inr b"
  shows "content (cache (run (evs @ [Task (Fetch net flt)]) s0)) = Some b \<and>
         fst (Get (run (evs @ [Task (Fetch net flt)]) s0)) = Returns (Some b) \<and>
         (flt = None \<longrightarrow>
            disk (run (evs @ [Task (Fetch net flt)]) s0) = (disk (run evs s0))(fn \<mapsto> b) \<and>
            logs (run (evs @ [Task (Fetch net flt)]) s0) = logs (run evs s0)) \<and>
         (\<forall>e left. flt = Some (e, left) \<longrightarrow>
            disk (run (evs @ [Task (Fetch net flt)]) s0) = (disk (run evs s0))(fn := left) \<and>
            logs (run (evs @ [Task (Fetch net flt)]) s0)
              = logs (run evs s0) @ [Cannot_write_to_local fn e]) \<and>
         task (run (evs @ [Task (Fetch net flt)]) s0) = Select2 \<and>
         task (run (evs @ [Task (Fetch net flt), Task Check]) s0)
           = (if ch_sendq (close (cache (run evs s0))) = [] then Select1 else CloseUpdate)"
proof -
  let ?s = "run evs s0"
  let ?s' = "(refresh net flt ?s)\<lparr>task := Select2\<rparr>"
  have inv: "cache_inv ?s" using assms(1) by (simp add: inv_New inv_run)
  have u: "url (cache ?s) = u" and f: "filename (cache ?s) = fn"
    using assms(1) by (simp_all add: run_frame New_fields)
  have r: "refresh net flt ?s =
     ?s\<lparr>cache := (cache ?s)\<lparr>content := Some b\<rparr>,
       disk := (case flt of
                  None \<Rightarrow> (disk ?s)(fn \<mapsto> b)
                | Some (e, left) \<Rightarrow> (disk ?s)(fn := left)),
       logs := (case flt of
                  None \<Rightarrow> logs ?s
                | Some (e, left) \<Rightarrow> logs ?s @ [Cannot_write_to_local fn e])\<rparr>"
    using refresh_ok [of net ?s r b flt] assms(3,4,5) u f by (cases flt) auto
  have st: "run (evs @ [Task (Fetch net flt)]) s0 = ?s'"
    using assms(2) by (simp add: run_append step_def task_step_def)
  have open_upd: "\<not> ch_closed (update (cache ?s))"
    and cl: "\<not> ch_closed (close (cache ?s))" "ch_buf (close (cache ?s)) = []"
    using inv assms(2) by (simp_all add: cache_inv_def Let_def)
  have c1: "content (cache ?s') = Some b" by (simp add: r)
  have c2: "fst (Get ?s') = Returns (Some b)"
    using open_upd by (simp add: r Get_def try_send_def Let_def)
  have c3: "flt = None \<longrightarrow> disk ?s' = (disk ?s)(fn \<mapsto> b) \<and> logs ?s' = logs ?s"
    using r by auto
  have c4: "\<forall>e left. flt = Some (e, left) \<longrightarrow>
              disk ?s' = (disk ?s)(fn := left) \<and>
              logs ?s' = logs ?s @ [Cannot_write_to_local fn e]"
    using r by auto
  have c5: "task ?s' = Select2" by simp
  have "run (evs @ [Task (Fetch net flt), Task Check]) s0 = step (Task Check) ?s'"
    using st run_append [of "evs @ [Task (Fetch net flt)]" "[Task Check]" s0] by simp
  then have c6: "task (run (evs @ [Task (Fetch net flt), Task Check]) s0)
           = (if ch_sendq (close (cache ?s)) = [] then Select1 else CloseUpdate)"
    using cl by (simp add: step_def task_step_def try_recv_def refresh_frame Let_def
                      split: list.splits)
  from c1 c2 c3 c4 c5 c6 show ?thesis unfolding st by blast
qed

theorem refresh_success_witness:
  "content (cache (run ([Task Tick] @ [Task (Fetch (net_status 200 ''v2'')
       (Some (Error ''no space left on device'', None)))]) (ready ''v1''))) = Some ''v2'' \<and>
   logs (run ([Task Tick] @ [Task (Fetch (net_status 200 ''v2'')
       (Some (Error ''no space left on device'', None)))]) (ready ''v1''))
     = [Cannot_write_to_local ''/var/cache/config'' (Error ''no space left on device'')] \<and>
   task (run ([Task Tick] @ [Task (Fetch (net_status 200 ''v2'')
       (Some (Error ''no space left on device'', None))), Task Check]) (ready ''v1'')) = Select1"
proof -
  have t: "task (run [Task Tick] (ready ''v1'')) = Refresh"
    by (simp add: step_def task_step_def ready_def)
  have n: "net_status 200 ''v2'' loadTimeout ''http://remote/config''
             = Inr \<lparr>StatusCode = 200, Body = Inr ''v2''\<rparr>"
    by (simp add: net_status_def)
  have l: "logs (run [Task Tick] (ready ''v1'')) = []"
    and q: "ch_sendq (close (cache (run [Task Tick] (ready ''v1'')))) = []"
    by (simp_all add: step_def task_step_def ready_def make_chan_def)
  from refresh_success
         [where ?net0.0 = "net_status 200 ''v1''" and ?dk0.0 = no_files and ?lg0.0 = "[]"
            and u = "''http://remote/config''" and fn = "''/var/cache/config''"
            and ?s0.0 = "ready ''v1''" and evs = "[Task Tick]"
            and net = "net_status 200 ''v2''"
            and r = "\<lparr>StatusCode = 200, Body = Inr ''v2''\<rparr>" and b = "''v2''"
            and flt = "Some (Error ''no space left on device'', None)"]
       New_ready [of "''v1''"] t n l q
  show ?thesis by simp
qed

text \<open>
  C10. After the goroutine has received from \<open>close\<close> and exited, every call of \<^verbatim>\<open>Get\<close>
  panics with \<^verbatim>\<open>send on closed channel\<close>, the goroutine having closed \<open>update\<close>; it does
  not return the snapshot.
\<close>

theorem Get_after_shutdown_panics:
  assumes "New net dk lg u fn = Returns s0" and "task (run evs s0) = Exited"
  shows "Get (run evs s0) = (Panics Send_on_closed_channel, run evs s0)"
proof -
  have "cache_inv (run evs s0)" using assms(1) by (simp add: inv_New inv_run)
  with assms(2) have "ch_closed (update (cache (run evs s0)))"
    by (simp add: cache_inv_def Let_def)
  then show ?thesis by (simp add: Get_def try_send_def)
qed

theorem Get_after_shutdown_panics_witness:
  "task (run shutdown_run (ready ''v1'')) = Exited \<and>
   fst (Get (run shutdown_run (ready ''v1''))) = Panics Send_on_closed_channel"
proof -
  have t: "task (run shutdown_run (ready ''v1'')) = Exited"
    by (simp add: shutdown_run_ready)
  from Get_after_shutdown_panics
         [where net = "net_status 200 ''v1''" and dk = no_files and lg = "[]"
            and u = "''http://remote/config''" and fn = "''/var/cache/config''"
            and ?s0.0 = "ready ''v1''" and evs = shutdown_run]
       New_ready [of "''v1''"] t
  show ?thesis by simp
qed

end
